theory Spec2Isabelle
  imports Complex_Main
begin

section \<open>Rent versus sell: the arithmetic of \<open>verify_math.py\<close>\<close>

text \<open>
  The script computes with Python numbers: unbounded integers and binary floating point
  (IEEE 754 doubles). Two models are given.
  \<^item> The year loop, and \<open>calculate_remaining_balance\<close> as the loop calls it, are
    modelled over exact reals. What is proved of the loop is how its variables are
    computed from one another (which sum, which comparison, which branch), and that does
    not depend on rounding.
  \<^item> \<open>calculate_remaining_balance_float\<close> models the function over doubles, with
    the rounding of every operation, the infinities, and the exceptions of Python's float
    arithmetic. What is proved of the values the function returns is proved of this model.
  The exceptions are values of \<open>py_error\<close>.
\<close>

subsection \<open>Python arithmetic that can raise\<close>

datatype py_error = ZeroDivisionError | TypeError | OverflowError

text \<open>\<open>a / b\<close>: true division, in exact arithmetic.\<close>

definition py_div :: "real \<Rightarrow> real \<Rightarrow> py_error + real" where
  "py_div a b = (if b = 0 then Inl ZeroDivisionError else Inr (a / b))"

text \<open>\<open>x ** n\<close> with an integer exponent, in exact arithmetic; \<open>0 ** 0\<close> is 1 in Python.\<close>

definition py_pow :: "real \<Rightarrow> int \<Rightarrow> py_error + real" where
  "py_pow x n =
     (if 0 \<le> n then Inr (x ^ nat n)
      else if x = 0 then Inl ZeroDivisionError
      else Inr (1 / x ^ nat (- n)))"

subsection \<open>\<open>calculate_remaining_balance\<close> in exact arithmetic\<close>

text \<open>
  \<^verbatim>\<open>
  def calculate_remaining_balance(principal, monthly_rate, total_months, months_paid):
      if monthly_rate == 0:
          return principal - (principal / total_months * months_paid)
      factor = (1 + monthly_rate) ** total_months
      paid_factor = (1 + monthly_rate) ** months_paid
      balance = principal * (factor - paid_factor) / (factor - 1)
      return max(0, balance)
  \<close>
  Arithmetic is exact here. Both month counts are integers at every call site of the
  script. The parameter
  \<open>principal\<close> is written \<open>principal'\<close>, the plain name being a constant of HOL.
\<close>

definition calculate_remaining_balance :: "real \<Rightarrow> real \<Rightarrow> int \<Rightarrow> int \<Rightarrow> py_error + real" where
  "calculate_remaining_balance principal' monthly_rate total_months months_paid =
     (if monthly_rate = 0 then
        (case py_div principal' (real_of_int total_months) of
           Inl e \<Rightarrow> Inl e
         | Inr q \<Rightarrow> Inr (principal' - q * real_of_int months_paid))
      else
        (case py_pow (1 + monthly_rate) total_months of
           Inl e \<Rightarrow> Inl e
         | Inr factor \<Rightarrow>
            (case py_pow (1 + monthly_rate) months_paid of
               Inl e \<Rightarrow> Inl e
             | Inr paid_factor \<Rightarrow>
                (case py_div (principal' * (factor - paid_factor)) (factor - 1) of
                   Inl e \<Rightarrow> Inl e
                 | Inr balance \<Rightarrow> Inr (max 0 balance)))))"

subsection \<open>Doubles\<close>

text \<open>
  A finite double is a real of the form \<open>m * 2 ^ e\<close> with \<open>\<bar>m\<bar> < 2 ^ 53\<close> and
  \<open>- 1074 \<le> e \<le> 971\<close>. \<open>round_real\<close> rounds a real to the nearest such number
  with no bound on the exponent above, ties going to the even \<open>m\<close>; below \<open>2 ^ - 1022\<close>
  the spacing stays at \<open>2 ^ - 1074\<close> (gradual underflow). \<open>fl\<close> is the result of an
  operation whose exact value is \<open>x\<close>: the rounded value, or an infinity when that
  reaches \<open>2 ^ 1024\<close>. The two zeros are not told apart: no operation of the function
  depends on the sign of a zero (Python raises for a division by either).
\<close>

fun bit_length :: "nat \<Rightarrow> nat" where
  "bit_length n = (if n = 0 then 0 else Suc (bit_length (n div 2)))"

declare bit_length.simps [simp del]

text \<open>For \<open>x > 0\<close>, the \<open>e\<close> with \<open>2 ^ e \<le> x < 2 ^ (e + 1)\<close>.\<close>

definition floor_log2 :: "real \<Rightarrow> int" where
  "floor_log2 x =
     (if 1 \<le> x then int (bit_length (nat \<lfloor>x\<rfloor>)) - 1
      else - int (bit_length (nat (\<lceil>1 / x\<rceil> - 1))))"

definition nearest_even :: "real \<Rightarrow> int" where
  "nearest_even q =
     (let f = \<lfloor>q\<rfloor>; d = q - of_int f
      in if d < 1 / 2 then f
         else if 1 / 2 < d then f + 1
         else if even f then f else f + 1)"

definition ulp :: "real \<Rightarrow> real" where
  "ulp x = 2 powi (max (floor_log2 \<bar>x\<bar>) (- 1022) - 52)"

definition round_real :: "real \<Rightarrow> real" where
  "round_real x = (if x = 0 then 0 else of_int (nearest_even (x / ulp x)) * ulp x)"

datatype pyfloat = Fin real | PosInf | NegInf | NaN

definition fl :: "real \<Rightarrow> pyfloat" where
  "fl x =
     (let r = round_real x
      in if 2 ^ 1024 \<le> r then PosInf
         else if r \<le> - (2 ^ 1024) then NegInf
         else Fin r)"

text \<open>The reals that are finite doubles.\<close>

definition is_double :: "real \<Rightarrow> bool" where
  "is_double x = (fl x = Fin x)"

subsection \<open>Python's float operations\<close>

text \<open>
  \<open>+\<close>, \<open>-\<close> and \<open>*\<close> on floats never raise: they overflow to an infinity and
  give \<open>nan\<close> for \<open>inf - inf\<close> and \<open>inf * 0\<close>. \<open>/\<close> raises
  \<open>ZeroDivisionError\<close> for a divisor of zero, whatever the dividend.
\<close>

fun float_neg :: "pyfloat \<Rightarrow> pyfloat" where
  "float_neg (Fin x) = Fin (- x)"
| "float_neg PosInf = NegInf"
| "float_neg NegInf = PosInf"
| "float_neg NaN = NaN"

fun float_add :: "pyfloat \<Rightarrow> pyfloat \<Rightarrow> pyfloat" where
  "float_add (Fin x) (Fin y) = fl (x + y)"
| "float_add NaN b = NaN"
| "float_add a NaN = NaN"
| "float_add PosInf NegInf = NaN"
| "float_add NegInf PosInf = NaN"
| "float_add PosInf b = PosInf"
| "float_add a PosInf = PosInf"
| "float_add NegInf b = NegInf"
| "float_add a NegInf = NegInf"

definition float_sub :: "pyfloat \<Rightarrow> pyfloat \<Rightarrow> pyfloat" where
  "float_sub a b = float_add a (float_neg b)"

fun float_mul :: "pyfloat \<Rightarrow> pyfloat \<Rightarrow> pyfloat" where
  "float_mul (Fin x) (Fin y) = fl (x * y)"
| "float_mul NaN b = NaN"
| "float_mul a NaN = NaN"
| "float_mul PosInf (Fin y) = (if y = 0 then NaN else if 0 < y then PosInf else NegInf)"
| "float_mul NegInf (Fin y) = (if y = 0 then NaN else if 0 < y then NegInf else PosInf)"
| "float_mul (Fin x) PosInf = (if x = 0 then NaN else if 0 < x then PosInf else NegInf)"
| "float_mul (Fin x) NegInf = (if x = 0 then NaN else if 0 < x then NegInf else PosInf)"
| "float_mul PosInf PosInf = PosInf"
| "float_mul PosInf NegInf = NegInf"
| "float_mul NegInf PosInf = NegInf"
| "float_mul NegInf NegInf = PosInf"

fun float_div :: "pyfloat \<Rightarrow> pyfloat \<Rightarrow> py_error + pyfloat" where
  "float_div a (Fin y) =
     (if y = 0 then Inl ZeroDivisionError
      else (case a of
              Fin x \<Rightarrow> Inr (fl (x / y))
            | PosInf \<Rightarrow> Inr (if 0 < y then PosInf else NegInf)
            | NegInf \<Rightarrow> Inr (if 0 < y then NegInf else PosInf)
            | NaN \<Rightarrow> Inr NaN))"
| "float_div (Fin x) PosInf = Inr (Fin 0)"
| "float_div (Fin x) NegInf = Inr (Fin 0)"
| "float_div a b = Inr NaN"

text \<open>
  \<open>max(0, balance)\<close>: Python keeps the first argument unless the second is greater,
  so a \<open>nan\<close> gives 0.
\<close>

fun float_max0 :: "pyfloat \<Rightarrow> pyfloat" where
  "float_max0 (Fin x) = (if 0 < x then Fin x else Fin 0)"
| "float_max0 PosInf = PosInf"
| "float_max0 NegInf = Fin 0"
| "float_max0 NaN = Fin 0"

text \<open>\<open>a <= b\<close> on floats; every comparison with a \<open>nan\<close> is false.\<close>

fun float_le :: "pyfloat \<Rightarrow> pyfloat \<Rightarrow> bool" where
  "float_le (Fin x) (Fin y) = (x \<le> y)"
| "float_le NaN b = False"
| "float_le a NaN = False"
| "float_le NegInf b = True"
| "float_le a PosInf = True"
| "float_le a b = False"

text \<open>
  An integer operand of a float operation is converted to a float first, rounded to
  nearest; Python raises \<open>OverflowError\<close> when the integer is too large.
\<close>

definition int_to_float :: "int \<Rightarrow> py_error + real" where
  "int_to_float n =
     (case fl (of_int n) of Fin v \<Rightarrow> Inr v | _ \<Rightarrow> Inl OverflowError)"

text \<open>
  \<open>x ** n\<close> for a float \<open>x\<close> and an integer \<open>n\<close>. The interpreter converts
  \<open>n\<close> and settles the special cases itself, in this order: an exponent of zero gives
  1; a \<open>nan\<close> base gives \<open>nan\<close>; an infinite base gives an infinity or zero; a base
  of zero raises \<open>ZeroDivisionError\<close> for a negative exponent and gives zero
  otherwise; a negative base is replaced by its absolute value and the result negated
  when the exponent is odd; a base of 1 gives 1. Every other case goes to the \<open>pow\<close>
  of the C library, whose overflow the interpreter turns into \<open>OverflowError\<close>. The
  library function is not part of the repository and its last bit differs between
  platforms, so it is a parameter here: \<open>libm_pow x y\<close> is any real, which \<open>fl\<close>
  rounds to the double returned (a function whose values are doubles is left unchanged
  by that rounding).
\<close>

definition float_pow :: "(real \<Rightarrow> real \<Rightarrow> real) \<Rightarrow> pyfloat \<Rightarrow> int \<Rightarrow> py_error + pyfloat" where
  "float_pow libm_pow x n =
     (case int_to_float n of
        Inl e \<Rightarrow> Inl e
      | Inr y \<Rightarrow>
          if y = 0 then Inr (Fin 1)
          else (case x of
                  NaN \<Rightarrow> Inr NaN
                | PosInf \<Rightarrow> Inr (if 0 < y then PosInf else Fin 0)
                | NegInf \<Rightarrow>
                    Inr (if 0 < y then (if odd \<lfloor>y\<rfloor> then NegInf else PosInf) else Fin 0)
                | Fin v \<Rightarrow>
                    if v = 0 then (if y < 0 then Inl ZeroDivisionError else Inr (Fin 0))
                    else if \<bar>v\<bar> = 1 then Inr (Fin (if v < 0 \<and> odd \<lfloor>y\<rfloor> then - 1 else 1))
                    else (case fl (libm_pow \<bar>v\<bar> y) of
                            Fin w \<Rightarrow> Inr (Fin (if v < 0 \<and> odd \<lfloor>y\<rfloor> then - w else w))
                          | _ \<Rightarrow> Inl OverflowError)))"

text \<open>
  The library function that returns the correctly rounded power, for the
  integer exponents that \<open>float_pow\<close> passes.
\<close>

definition exact_pow :: "real \<Rightarrow> real \<Rightarrow> real" where
  "exact_pow x y = x powi \<lfloor>y\<rfloor>"

subsection \<open>\<open>calculate_remaining_balance\<close> in double precision\<close>

text \<open>
  The function of lines 43 to 52 on floats. \<open>principal'\<close> and \<open>monthly_rate\<close> are
  floats and the two month counts are integers, as at the call sites of the script
  (the script's principal, the integer 320000, is the float of the same value in each
  operation below). The operations are in the order in which Python evaluates them, so
  that the first exception raised is the one returned.
\<close>

definition calculate_remaining_balance_float ::
    "(real \<Rightarrow> real \<Rightarrow> real) \<Rightarrow> pyfloat \<Rightarrow> pyfloat \<Rightarrow> int \<Rightarrow> int \<Rightarrow> py_error + pyfloat" where
  "calculate_remaining_balance_float libm_pow principal' monthly_rate total_months months_paid =
     (if monthly_rate = Fin 0 then
        (case int_to_float total_months of
           Inl e \<Rightarrow> Inl e
         | Inr n \<Rightarrow>
            (case float_div principal' (Fin n) of
               Inl e \<Rightarrow> Inl e
             | Inr q \<Rightarrow>
                (case int_to_float months_paid of
                   Inl e \<Rightarrow> Inl e
                 | Inr p \<Rightarrow> Inr (float_sub principal' (float_mul q (Fin p))))))
      else
        (let base = float_add (Fin 1) monthly_rate
         in case float_pow libm_pow base total_months of
              Inl e \<Rightarrow> Inl e
            | Inr factor \<Rightarrow>
               (case float_pow libm_pow base months_paid of
                  Inl e \<Rightarrow> Inl e
                | Inr paid_factor \<Rightarrow>
                   (case float_div (float_mul principal' (float_sub factor paid_factor))
                           (float_sub factor (Fin 1)) of
                      Inl e \<Rightarrow> Inl e
                    | Inr balance \<Rightarrow> Inr (float_max0 balance)))))"

subsection \<open>The inputs of the script\<close>

text \<open>
  The script fixes its inputs as module-level constants. They are gathered in a record
  so that the year loop is a function of them; \<open>defaults\<close> holds the values of
  the script. \<open>elapsed\<close> is the value of
  \<^verbatim>\<open>months_elapsed(loan_origin_date, now)\<close>, which the script obtains from the
  \<open>dateutil\<close> library: 49 for the dates of the script.
\<close>

record inputs =
  purchase_price :: real
  original_loan_amount :: real
  interest_rate :: real
  monthly_pi :: real
  monthly_hoa :: real
  monthly_taxes :: real
  monthly_insurance :: real
  monthly_maintenance :: real
  rental_price :: real
  annual_rent_increase :: real
  property_mgmt_fee :: real
  costs_to_rent :: real
  rental_tax_rate :: real
  home_appreciation :: real
  selling_fees :: real
  costs_to_sell :: real
  capital_gains_tax :: real
  investment_return :: real
  years_to_hold :: int
  is_primary_residence :: bool
  elapsed :: int

definition defaults :: inputs where
  "defaults =
     \<lparr> purchase_price = 400000, original_loan_amount = 320000, interest_rate = 65 / 10,
       monthly_pi = 2023, monthly_hoa = 150, monthly_taxes = 350, monthly_insurance = 150,
       monthly_maintenance = 200, rental_price = 2800, annual_rent_increase = 3,
       property_mgmt_fee = 10, costs_to_rent = 5000, rental_tax_rate = 22,
       home_appreciation = 3, selling_fees = 6, costs_to_sell = 10000,
       capital_gains_tax = 15, investment_return = 7, years_to_hold = 10,
       is_primary_residence = True, elapsed = 49 \<rparr>"

definition monthly_rate :: "inputs \<Rightarrow> real" where
  "monthly_rate inp = interest_rate inp / 100 / 12"

definition total_loan_months :: int where
  "total_loan_months = 360"

definition monthly_ownership_cost :: "inputs \<Rightarrow> real" where
  "monthly_ownership_cost inp =
     monthly_pi inp + monthly_taxes inp + monthly_insurance inp + monthly_hoa inp
       + monthly_maintenance inp"

definition annual_depreciation :: "inputs \<Rightarrow> real" where
  "annual_depreciation inp = (purchase_price inp * (8 / 10)) / (275 / 10)"

subsection \<open>One iteration of the year loop\<close>

text \<open>
  \<open>x ** y\<close> with a floating-point exponent, as in
  \<^verbatim>\<open>(1 + home_appreciation / 100) ** years_from_purchase\<close>. A negative base with a
  fractional exponent gives a complex number in Python; nothing raises until that number
  is ordered (\<^verbatim>\<open>capital_gain > 0\<close>), so the result is kept as \<open>PyComplex\<close>.
\<close>

datatype py_number = PyFloat real | PyComplex

definition py_fpow :: "real \<Rightarrow> real \<Rightarrow> py_error + py_number" where
  "py_fpow x y =
     (if 0 < x then Inr (PyFloat (x powr y))
      else if y = 0 then Inr (PyFloat 1)
      else if x = 0 then (if y < 0 then Inl ZeroDivisionError else Inr (PyFloat 0))
      else if y \<in> \<int> then Inr (PyFloat (x powi \<lfloor>y\<rfloor>))
      else Inr PyComplex)"

text \<open>The two variables that the loop carries from one year to the next.\<close>

record accumulators =
  cumulative_rental_cash_flow :: real
  cumulative_opportunity_cost :: real

text \<open>The variables that an iteration assigns, most of which it prints.\<close>

record year_values =
  future_months :: int
  years_from_purchase :: real
  home_value :: real
  loan_balance :: real
  equity :: real
  current_rent :: real
  annual_rental_income :: real
  annual_mgmt_fee :: real
  annual_ownership_costs :: real
  gross_rental_profit :: real
  taxable_rental_income :: real
  rental_tax :: real
  net_rental_cash_flow :: real
  year_cash_flow :: real
  year_opportunity_cost :: real
  rental_net_worth :: real
  sale_price :: real
  selling_costs :: real
  net_sale_proceeds :: real
  capital_gain :: real
  capital_gains_tax_owed :: real
  net_after_tax_proceeds :: real
  years_to_invest :: int
  invested_value :: real
  better :: string

text \<open>
  The body of \<^verbatim>\<open>for year in range(0, years_to_hold + 1)\<close> (lines 116 to 170), from
  the accumulators before the iteration to the accumulators after it and the values it
  assigned. The loop variable ranges over natural numbers.
\<close>

definition year_iteration ::
    "inputs \<Rightarrow> accumulators \<Rightarrow> nat \<Rightarrow> py_error + (accumulators \<times> year_values)" where
  "year_iteration inp acc year =
     (let future_months' = elapsed inp + int year * 12;
          years_from_purchase' = real_of_int future_months' / 12
      in
      (case py_fpow (1 + home_appreciation inp / 100) years_from_purchase' of
        Inl e \<Rightarrow> Inl e
      | Inr growth \<Rightarrow>
      (case calculate_remaining_balance (original_loan_amount inp) (monthly_rate inp)
             total_loan_months future_months' of
        Inl e \<Rightarrow> Inl e
      | Inr loan_balance' \<Rightarrow>
      (case growth of
        PyComplex \<Rightarrow> Inl TypeError
      | PyFloat g \<Rightarrow>
      (let home_value' = purchase_price inp * g;
          equity' = home_value' - loan_balance';
          current_rent' = rental_price inp * (1 + annual_rent_increase inp / 100) ^ year;
          annual_rental_income' = current_rent' * 12;
          annual_mgmt_fee' = annual_rental_income' * (property_mgmt_fee inp / 100);
          annual_ownership_costs' = monthly_ownership_cost inp * 12;
          gross_rental_profit' =
            annual_rental_income' - annual_mgmt_fee' - annual_ownership_costs';
          taxable_rental_income' = gross_rental_profit' - annual_depreciation inp;
          rental_tax' = max 0 (taxable_rental_income' * (rental_tax_rate inp / 100));
          net_rental_cash_flow' = gross_rental_profit' - rental_tax';
          cumulative_rental_cash_flow' =
            (if year = 0 then cumulative_rental_cash_flow acc
             else cumulative_rental_cash_flow acc + net_rental_cash_flow');
          year_cash_flow' =
            (if year = 0 then - costs_to_rent inp else net_rental_cash_flow');
          year_opportunity_cost' =
            (if year > 0 \<and> net_rental_cash_flow' < 0 then \<bar>net_rental_cash_flow'\<bar> else 0);
          cumulative_opportunity_cost' =
            (if year > 0
             then cumulative_opportunity_cost acc * (1 + investment_return inp / 100)
                    + year_opportunity_cost'
             else cumulative_opportunity_cost acc);
          rental_net_worth' = equity' + cumulative_rental_cash_flow';
          sale_price' = home_value';
          selling_costs' = sale_price' * (selling_fees inp / 100) + costs_to_sell inp;
          net_sale_proceeds' = sale_price' - loan_balance' - selling_costs';
          capital_gain' = sale_price' - purchase_price inp;
          capital_gains_tax_owed' =
            (if capital_gain' > 0 then
               (let taxable_gain =
                      (if is_primary_residence inp \<and> year \<le> 3
                       then max 0 (capital_gain' - 500000)
                       else capital_gain')
                in taxable_gain * (capital_gains_tax inp / 100))
             else 0);
          net_after_tax_proceeds' = net_sale_proceeds' - capital_gains_tax_owed';
          years_to_invest' = years_to_hold inp - int year
      in
      (case py_pow (1 + investment_return inp / 100) years_to_invest' of
        Inl e \<Rightarrow> Inl e
      | Inr compounded \<Rightarrow>
      (let invested_value' = net_after_tax_proceeds' * compounded;
          better' = (if rental_net_worth' > invested_value' then ''RENT'' else ''SELL'')
      in
      Inr (\<lparr> cumulative_rental_cash_flow = cumulative_rental_cash_flow',
             cumulative_opportunity_cost = cumulative_opportunity_cost' \<rparr>,
           \<lparr> future_months = future_months',
             years_from_purchase = years_from_purchase',
             home_value = home_value',
             loan_balance = loan_balance',
             equity = equity',
             current_rent = current_rent',
             annual_rental_income = annual_rental_income',
             annual_mgmt_fee = annual_mgmt_fee',
             annual_ownership_costs = annual_ownership_costs',
             gross_rental_profit = gross_rental_profit',
             taxable_rental_income = taxable_rental_income',
             rental_tax = rental_tax',
             net_rental_cash_flow = net_rental_cash_flow',
             year_cash_flow = year_cash_flow',
             year_opportunity_cost = year_opportunity_cost',
             rental_net_worth = rental_net_worth',
             sale_price = sale_price',
             selling_costs = selling_costs',
             net_sale_proceeds = net_sale_proceeds',
             capital_gain = capital_gain',
             capital_gains_tax_owed = capital_gains_tax_owed',
             net_after_tax_proceeds = net_after_tax_proceeds',
             years_to_invest = years_to_invest',
             invested_value = invested_value',
             better = better' \<rparr>))))))))"

subsection \<open>The year loop\<close>

text \<open>
  The loop over a list of years. It yields, for every iteration that completed, the
  accumulators at its end and the values it assigned, and the exception that stopped the
  loop, if one did.
\<close>

fun year_loop ::
    "inputs \<Rightarrow> accumulators \<Rightarrow> nat list
       \<Rightarrow> (accumulators \<times> year_values) list \<times> py_error option" where
  "year_loop inp acc [] = ([], None)"
| "year_loop inp acc (year # years) =
     (case year_iteration inp acc year of
        Inl e \<Rightarrow> ([], Some e)
      | Inr row \<Rightarrow>
          (case year_loop inp (fst row) years of
             (rows, stopped) \<Rightarrow> (row # rows, stopped)))"

text \<open>
  Lines 112 to 115: the accumulators are initialised, and \<open>year\<close> runs over
  \<^verbatim>\<open>range(0, years_to_hold + 1)\<close>, which is empty when \<open>years_to_hold\<close> is negative.
\<close>

definition projection :: "inputs \<Rightarrow> (accumulators \<times> year_values) list \<times> py_error option" where
  "projection inp =
     year_loop inp
       \<lparr> cumulative_rental_cash_flow = - costs_to_rent inp, cumulative_opportunity_cost = 0 \<rparr>
       [0 ..< nat (years_to_hold inp + 1)]"

section \<open>Properties of the remaining balance in exact arithmetic\<close>

lemma py_pow_powi: "x \<noteq> 0 \<Longrightarrow> py_pow x n = Inr (x powi n)"
  by (simp add: py_pow_def power_int_def inverse_eq_divide power_one_over)

lemma factor_gt_one:
  fixes r :: real
  assumes "0 < r" and "0 < n"
  shows "1 < (1 + r) powi n"
proof -
  from assms have "1 < (1 + r) ^ nat n"
    by (intro one_less_power) auto
  with assms show ?thesis
    by (simp add: power_int_def)
qed

lemma balance_zero_rate:
  assumes "n \<noteq> 0"
  shows "calculate_remaining_balance P 0 n p = Inr (P - P / real_of_int n * real_of_int p)"
  using assms by (simp add: calculate_remaining_balance_def py_div_def)

lemma balance_positive_rate:
  assumes "0 < r" and "0 < n"
  shows "calculate_remaining_balance P r n p =
           Inr (max 0 (P * ((1 + r) powi n - (1 + r) powi p) / ((1 + r) powi n - 1)))"
proof -
  from assms have nz: "1 + r \<noteq> 0" by simp
  from factor_gt_one [OF assms] have "(1 + r) powi n - 1 \<noteq> 0" by simp
  with assms nz show ?thesis
    by (simp add: calculate_remaining_balance_def py_pow_powi py_div_def)
qed

text \<open>The branch for a rate above zero never returns a negative balance.\<close>

lemma balance_positive_rate_clamped:
  assumes "0 < r" and "0 < n"
  shows "\<exists>b. calculate_remaining_balance P r n p = Inr b \<and> 0 \<le> b"
  using balance_positive_rate [OF assms] by simp

lemma powi_mono_exp:
  fixes r :: real
  assumes "0 \<le> r" and "p1 \<le> p2"
  shows "(1 + r) powi p1 \<le> (1 + r) powi p2"
  using assms by (intro power_int_increasing) auto

text \<open>
  Claim C1: for a positive principal, a monthly rate that is zero or more, a positive term
  and a number of months paid that is zero or more, the returned balance is never
  negative. The branch for a rate other than zero clamps with \<open>max(0, balance)\<close>; the
  branch for a rate of zero returns before the clamp. With a principal of 100, a rate of
  0, a term of 10 months and 20 months paid the function returns \<open>-100\<close>.
\<close>

theorem zero_rate_overpaid_negative:
  "calculate_remaining_balance 100 0 10 20 = Inr (- 100)"
  by (simp add: calculate_remaining_balance_def py_div_def)

text \<open>
  In exact arithmetic a paid-off loan has a balance of 0, and a loan on which nothing is
  paid has its principal as balance.
\<close>

lemma exact_balance_paid_off:
  assumes "0 < P" and "0 < r" and "0 < n"
  shows "calculate_remaining_balance P r n n = Inr 0"
  using assms by (simp add: balance_positive_rate)

lemma exact_balance_nothing_paid:
  assumes "0 < P" and "0 \<le> r" and "0 < n"
  shows "calculate_remaining_balance P r n 0 = Inr P"
proof (cases "r = 0")
  case True
  with assms show ?thesis by (simp add: balance_zero_rate)
next
  case False
  with assms have r: "0 < r" by simp
  from factor_gt_one [OF r \<open>0 < n\<close>] have "(1 + r) powi n - 1 \<noteq> 0" by simp
  with assms r show ?thesis by (simp add: balance_positive_rate)
qed

section \<open>Rounding to a double\<close>

lemma bit_length_pos: "0 < n \<Longrightarrow> bit_length n = Suc (bit_length (n div 2))"
  by (subst bit_length.simps) simp

lemma bit_length_bounds:
  "0 < n \<Longrightarrow> 2 ^ (bit_length n - 1) \<le> n \<and> n < 2 ^ bit_length n"
proof (induction n rule: bit_length.induct)
  case (1 n)
  note eq = bit_length_pos [OF "1.prems"]
  show ?case
  proof (cases "n div 2 = 0")
    case True
    with "1.prems" have n: "n = 1" by (simp add: div_eq_0_iff)
    have "bit_length (0::nat) = 0" by (subst bit_length.simps) simp
    with n eq show ?thesis by simp
  next
    case False
    then have pos: "0 < n div 2" by simp
    from "1.prems" have nz: "n \<noteq> 0" by simp
    from "1.IH" [OF nz pos]
    have lo: "2 ^ (bit_length (n div 2) - 1) \<le> n div 2" and hi: "n div 2 < 2 ^ bit_length (n div 2)"
      by simp_all
    from bit_length_pos [OF pos] obtain k where k: "bit_length (n div 2) = Suc k" by blast
    from lo k have "2 * 2 ^ k \<le> n" by simp
    then have l: "2 ^ (bit_length n - 1) \<le> n"
      by (simp add: eq k)
    from hi have "n < 2 * 2 ^ bit_length (n div 2)" by arith
    then have "n < 2 ^ bit_length n" by (simp add: eq)
    with l show ?thesis by simp
  qed
qed

lemma floor_log2_bounds:
  assumes "0 < x"
  shows "2 powi floor_log2 x \<le> x \<and> x < 2 powi (floor_log2 x + 1)"
proof (cases "1 \<le> x")
  case True
  define k where "k = nat \<lfloor>x\<rfloor>"
  from True have kpos: "0 < k" by (simp add: k_def)
  from True have kx: "real k \<le> x" "x < real k + 1" by (simp_all add: k_def)
  from bit_length_pos [OF kpos] obtain c where c: "bit_length k = Suc c" by blast
  from bit_length_bounds [OF kpos] c have "2 ^ c \<le> k" "k < 2 ^ Suc c" by simp_all
  then have "real (2 ^ c) \<le> real k" "real (Suc k) \<le> real (2 ^ Suc c)"
    by (simp_all only: of_nat_le_iff Suc_le_eq)
  then have "(2::real) ^ c \<le> real k" "real k + 1 \<le> 2 ^ Suc c"
    by simp_all
  with kx have "(2::real) ^ c \<le> x" "x < 2 ^ Suc c" by linarith+
  moreover from True have "floor_log2 x = int c" by (simp add: floor_log2_def k_def [symmetric] c)
  ultimately show ?thesis
    by (simp add: power_int_add)
next
  case False
  with assms have x1: "x < 1" by simp
  define m where "m = \<lceil>1 / x\<rceil>"
  define j where "j = nat (m - 1)"
  from assms x1 have "1 < 1 / x" by simp
  then have m2: "2 \<le> m" unfolding m_def by linarith
  then have jpos: "0 < j" and jm: "real j = of_int m - 1" by (simp_all add: j_def)
  have "1 / x \<le> of_int m" "of_int m - 1 < 1 / x" unfolding m_def by linarith+
  with jm have jx: "1 / x \<le> real j + 1" "real j < 1 / x" by simp_all
  from bit_length_pos [OF jpos] obtain c where c: "bit_length j = Suc c" by blast
  from bit_length_bounds [OF jpos] c have "2 ^ c \<le> j" "j < 2 ^ Suc c" by simp_all
  then have "real (2 ^ c) \<le> real j" "real (Suc j) \<le> real (2 ^ Suc c)"
    by (simp_all only: of_nat_le_iff Suc_le_eq)
  then have "(2::real) ^ c \<le> real j" "real j + 1 \<le> 2 ^ Suc c"
    by simp_all
  with jx have b: "1 / x \<le> 2 ^ Suc c" "(2::real) ^ c < 1 / x" by linarith+
  from b(1) assms have lo: "1 / 2 ^ Suc c \<le> x"
    by (simp add: field_simps)
  from b(2) assms have hi: "x < 1 / 2 ^ c"
    by (simp add: field_simps)
  from False have fl: "floor_log2 x = - int (Suc c)"
    by (simp add: floor_log2_def m_def [symmetric] j_def [symmetric] c)
  have p1: "2 powi (- int (Suc c)) = 1 / (2::real) ^ Suc c"
    by (simp only: power_int_minus_divide power_int_of_nat)
  have "- int (Suc c) + 1 = - int c" by simp
  then have p2: "2 powi (- int (Suc c) + 1) = 1 / (2::real) ^ c"
    by (simp only: power_int_minus_divide power_int_of_nat)
  show ?thesis
    unfolding fl p1 p2 using lo hi by simp
qed

lemma powi_two_mono: "a \<le> b \<Longrightarrow> (2::real) powi a \<le> 2 powi b"
  by (rule power_int_increasing) simp_all

lemma floor_log2_unique:
  assumes "0 < x" and "2 powi e \<le> x" and "x < 2 powi (e + 1)"
  shows "floor_log2 x = e"
proof (rule ccontr)
  assume ne: "floor_log2 x \<noteq> e"
  from floor_log2_bounds [OF assms(1)]
  have b: "2 powi floor_log2 x \<le> x" "x < 2 powi (floor_log2 x + 1)" by simp_all
  show False
  proof (cases "floor_log2 x < e")
    case True
    then have "(2::real) powi (floor_log2 x + 1) \<le> 2 powi e" by (intro powi_two_mono) simp
    with b(2) assms(2) show False by linarith
  next
    case False
    with ne have "e + 1 \<le> floor_log2 x" by simp
    then have "(2::real) powi (e + 1) \<le> 2 powi floor_log2 x" by (rule powi_two_mono)
    with b(1) assms(3) show False by linarith
  qed
qed

lemma floor_log2_mono:
  assumes "0 < x" and "x \<le> y"
  shows "floor_log2 x \<le> floor_log2 y"
proof (rule ccontr)
  assume "\<not> floor_log2 x \<le> floor_log2 y"
  then have "floor_log2 y + 1 \<le> floor_log2 x" by simp
  then have "(2::real) powi (floor_log2 y + 1) \<le> 2 powi floor_log2 x" by (rule powi_two_mono)
  moreover from floor_log2_bounds [of x] floor_log2_bounds [of y] assms
  have "2 powi floor_log2 x \<le> x" "y < 2 powi (floor_log2 y + 1)" by simp_all
  ultimately show False using assms(2) by linarith
qed

lemma nearest_even_of_int: "nearest_even (of_int k) = k"
  by (simp add: nearest_even_def)

lemma nearest_even_cases:
  "nearest_even q = \<lfloor>q\<rfloor> \<or> nearest_even q = \<lfloor>q\<rfloor> + 1"
  by (simp add: nearest_even_def Let_def)

lemma nearest_even_mono:
  assumes "q \<le> q'"
  shows "nearest_even q \<le> nearest_even q'"
proof (cases "\<lfloor>q\<rfloor> = \<lfloor>q'\<rfloor>")
  case True
  with assms have "q - of_int \<lfloor>q'\<rfloor> \<le> q' - of_int \<lfloor>q'\<rfloor>" by simp
  with True show ?thesis
    by (auto simp: nearest_even_def Let_def)
next
  case False
  from assms have "\<lfloor>q\<rfloor> \<le> \<lfloor>q'\<rfloor>" by (rule floor_mono)
  with False have "\<lfloor>q\<rfloor> + 1 \<le> \<lfloor>q'\<rfloor>" by simp
  moreover from nearest_even_cases [of q] have "nearest_even q \<le> \<lfloor>q\<rfloor> + 1" by auto
  moreover from nearest_even_cases [of q'] have "\<lfloor>q'\<rfloor> \<le> nearest_even q'" by auto
  ultimately show ?thesis by linarith
qed

lemma nearest_even_minus: "nearest_even (- q) = - nearest_even q"
proof (cases "q = of_int \<lfloor>q\<rfloor>")
  case True
  then obtain k where "q = of_int k" ..
  then have "- q = of_int (- k)" by simp
  with \<open>q = of_int k\<close> show ?thesis
    by (simp only: nearest_even_of_int)
next
  case False
  then have fm: "\<lfloor>- q\<rfloor> = - \<lfloor>q\<rfloor> - 1"
    by (simp add: floor_minus ceiling_altdef)
  have d: "- q - of_int (- \<lfloor>q\<rfloor> - 1) = 1 - (q - of_int \<lfloor>q\<rfloor>)" by simp
  show ?thesis
    unfolding nearest_even_def Let_def fm d
    by (auto simp: field_simps)
qed

lemma nearest_even_nonneg: "0 \<le> q \<Longrightarrow> 0 \<le> nearest_even q"
  using nearest_even_mono [of 0 q] nearest_even_of_int [of 0] by simp

lemma ulp_pos: "0 < ulp x"
  by (simp add: ulp_def)

lemma ulp_minus: "ulp (- x) = ulp x"
  by (simp add: ulp_def)

lemma round_real_minus: "round_real (- x) = - round_real x"
  by (simp add: round_real_def ulp_minus nearest_even_minus)

lemma round_real_nonneg: "0 \<le> x \<Longrightarrow> 0 \<le> round_real x"
  using ulp_pos [of x] by (simp add: round_real_def nearest_even_nonneg)

lemma powi_two_split:
  "(2::real) powi (e + 1) = 2 ^ 53 * 2 powi (e - 52)"
  "(2::real) powi e = 2 ^ 52 * 2 powi (e - 52)"
  using power_int_add [of "2::real" 53 "e - 52"] power_int_add [of "2::real" 52 "e - 52"]
  by (simp_all add: add.commute)

lemma round_real_upper:
  assumes "0 < x"
  shows "round_real x \<le> 2 powi (max (floor_log2 x) (- 1022) + 1)"
proof -
  let ?e = "max (floor_log2 x) (- 1022)"
  let ?u = "(2::real) powi (?e - 52)"
  have u: "ulp x = ?u" using assms by (simp add: ulp_def)
  have upos: "0 < ?u" by simp
  from floor_log2_bounds [OF assms] have "x < 2 powi (floor_log2 x + 1)" by simp
  also have "\<dots> \<le> 2 powi (?e + 1)" by (rule powi_two_mono) simp
  finally have "x < 2 ^ 53 * ?u" by (simp only: powi_two_split(1))
  with upos have "x / ?u \<le> of_int (2 ^ 53)" by (simp add: field_simps)
  from nearest_even_mono [OF this] have "nearest_even (x / ?u) \<le> 2 ^ 53"
    by (simp only: nearest_even_of_int)
  then have "real_of_int (nearest_even (x / ?u)) \<le> of_int (2 ^ 53)" by (simp only: of_int_le_iff)
  then have "real_of_int (nearest_even (x / ?u)) \<le> 2 ^ 53" by simp
  with upos have "of_int (nearest_even (x / ?u)) * ?u \<le> 2 ^ 53 * ?u"
    by (intro mult_right_mono) simp_all
  then have "of_int (nearest_even (x / ?u)) * ?u \<le> 2 powi (?e + 1)"
    by (simp only: powi_two_split(1))
  with assms show ?thesis
    by (simp only: round_real_def u) simp
qed

lemma round_real_lower:
  assumes "0 < x" and "- 1022 \<le> floor_log2 x"
  shows "2 powi floor_log2 x \<le> round_real x"
proof -
  let ?e = "floor_log2 x"
  let ?u = "(2::real) powi (?e - 52)"
  from assms have u: "ulp x = ?u" by (simp add: ulp_def max_def)
  have upos: "0 < ?u" by simp
  from floor_log2_bounds [OF assms(1)] have "2 powi ?e \<le> x" by simp
  then have "2 ^ 52 * ?u \<le> x"
    by (simp only: powi_two_split(2) [symmetric])
  with upos have "of_int (2 ^ 52) \<le> x / ?u" by (simp add: field_simps)
  from nearest_even_mono [OF this] have "2 ^ 52 \<le> nearest_even (x / ?u)"
    by (simp only: nearest_even_of_int)
  then have "of_int (2 ^ 52) \<le> real_of_int (nearest_even (x / ?u))" by (simp only: of_int_le_iff)
  then have "2 ^ 52 \<le> real_of_int (nearest_even (x / ?u))" by simp
  with upos have "2 ^ 52 * ?u \<le> of_int (nearest_even (x / ?u)) * ?u"
    by (intro mult_right_mono) simp_all
  then have "2 powi ?e \<le> of_int (nearest_even (x / ?u)) * ?u"
    by (simp only: powi_two_split(2) [symmetric])
  with assms show ?thesis
    by (simp only: round_real_def u) simp
qed

lemma round_real_mono_pos:
  assumes "0 < x" and "x \<le> y"
  shows "round_real x \<le> round_real y"
proof -
  let ?ex = "max (floor_log2 x) (- 1022)"
  let ?ey = "max (floor_log2 y) (- 1022)"
  from assms have ypos: "0 < y" by simp
  from floor_log2_mono [OF assms] have le: "?ex \<le> ?ey" by simp
  show ?thesis
  proof (cases "?ex = ?ey")
    case True
    with assms ypos have u: "ulp y = ulp x" by (simp add: ulp_def)
    from assms ulp_pos [of x] have "x / ulp x \<le> y / ulp x" by (simp add: divide_right_mono)
    from nearest_even_mono [OF this] ulp_pos [of x]
    have "of_int (nearest_even (x / ulp x)) * ulp x \<le> of_int (nearest_even (y / ulp x)) * ulp x"
      by (intro mult_right_mono) simp_all
    with assms ypos show ?thesis by (simp add: round_real_def u)
  next
    case False
    with le have lt: "?ex + 1 \<le> ?ey" by simp
    then have unclamped: "- 1022 \<le> floor_log2 y" "?ey = floor_log2 y" by simp_all
    from round_real_upper [OF assms(1)] have "round_real x \<le> 2 powi (?ex + 1)" .
    also from lt have "\<dots> \<le> 2 powi ?ey" by (rule powi_two_mono)
    also from round_real_lower [OF ypos unclamped(1)] unclamped(2)
    have "2 powi ?ey \<le> round_real y" by simp
    finally show ?thesis .
  qed
qed

lemma round_real_zero: "round_real 0 = 0"
  by (simp add: round_real_def)

lemma round_real_mono:
  assumes "x \<le> y"
  shows "round_real x \<le> round_real y"
proof -
  consider "0 < x" | "x \<le> 0" "0 \<le> y" | "y < 0" by linarith
  then show ?thesis
  proof cases
    case 1
    from 1 assms show ?thesis by (rule round_real_mono_pos)
  next
    case 2
    from 2(1) have "0 \<le> round_real (- x)" by (intro round_real_nonneg) simp
    then have "round_real x \<le> 0" by (simp add: round_real_minus)
    also from 2(2) have "0 \<le> round_real y" by (rule round_real_nonneg)
    finally show ?thesis .
  next
    case 3
    with assms have "0 < - y" "- y \<le> - x" by simp_all
    from round_real_mono_pos [OF this] show ?thesis by (simp add: round_real_minus)
  qed
qed

lemmas fl_eval = fl_def round_real_def ulp_def floor_log2_def nearest_even_def Let_def
  bit_length.simps power_int_minus_divide

lemma fl_FinD: "fl x = Fin v \<Longrightarrow> v = round_real x"
  by (simp add: fl_def Let_def split: if_splits)

lemma fl_not_NaN [simp]: "fl x \<noteq> NaN"
  by (simp add: fl_def Let_def)

lemma fl_zero [simp]: "fl 0 = Fin 0"
  by (simp add: fl_def round_real_zero)

lemma round_real_one: "round_real 1 = 1"
  by (simp add: fl_eval)

lemma int_to_float_pos:
  assumes "0 < n" and "int_to_float n = Inr y"
  shows "1 \<le> y"
proof -
  from assms(2) have "fl (of_int n) = Fin y"
    by (simp add: int_to_float_def split: pyfloat.splits)
  then have "y = round_real (of_int n)" by (rule fl_FinD)
  moreover from assms(1) have "round_real 1 \<le> round_real (of_int n)"
    by (intro round_real_mono) simp
  ultimately show ?thesis by (simp add: round_real_one)
qed

lemma int_to_float_zero [simp]: "int_to_float 0 = Inr 0"
  by (simp add: int_to_float_def)

lemma int_to_float_double: "is_double (of_int n) \<Longrightarrow> int_to_float n = Inr (of_int n)"
  by (simp add: int_to_float_def is_double_def)


lemmas float_eval = calculate_remaining_balance_float_def int_to_float_def float_sub_def
  float_pow_def exact_pow_def power_divide fl_eval

lemma is_double_bounds:
  assumes "is_double a"
  shows "round_real a = a" and "a < 2 ^ 1024" and "- (2 ^ 1024) < a"
  using assms by (simp_all add: is_double_def fl_def Let_def split: if_splits)

lemma fl_finite_between:
  assumes "is_double lo" and "is_double hi" and "lo \<le> x" and "x \<le> hi"
  shows "fl x = Fin (round_real x)"
proof -
  from round_real_mono [OF assms(3)] round_real_mono [OF assms(4)]
    is_double_bounds [OF assms(1)] is_double_bounds [OF assms(2)]
  have "- (2 ^ 1024) < round_real x" "round_real x < 2 ^ 1024" by simp_all
  then show ?thesis by (simp add: fl_def Let_def)
qed

lemma is_double_zero: "is_double 0"
  by (simp add: is_double_def)

lemma float_sub_self: "float_sub f f = Fin 0 \<or> float_sub f f = NaN"
  by (cases f) (simp_all add: float_sub_def)

lemma float_mul_zero_or_nan:
  "m = Fin 0 \<or> m = NaN \<Longrightarrow> float_mul P m = Fin 0 \<or> float_mul P m = NaN"
  by (cases P) auto

lemma float_div_zero_or_nan:
  "m = Fin 0 \<or> m = NaN \<Longrightarrow> float_div m d = Inr b \<Longrightarrow> b = Fin 0 \<or> b = NaN"
  by (cases d) (auto split: if_splits)

lemma float_div_errors: "float_div m d = Inl e \<Longrightarrow> e = ZeroDivisionError \<and> d = Fin 0"
  by (cases d; cases m) (auto split: if_splits)

lemma float_div_returns: "d \<noteq> Fin 0 \<Longrightarrow> \<exists>b. float_div m d = Inr b"
  by (cases d; cases m) auto

lemma int_to_float_errors: "int_to_float n = Inl e \<Longrightarrow> e = OverflowError"
  by (simp add: int_to_float_def split: pyfloat.splits)

lemma float_pow_errors:
  "float_pow pw x n = Inl e \<Longrightarrow> e = OverflowError \<or> e = ZeroDivisionError"
  by (auto simp: float_pow_def dest: int_to_float_errors
      split: sum.splits pyfloat.splits if_splits)

lemma int_to_float_nonzero:
  assumes "0 < n" and "int_to_float n = Inr y"
  shows "y \<noteq> 0"
  using int_to_float_pos [OF assms] by simp

lemma float_pow_zero: "float_pow pw x 0 = Inr (Fin 1)"
  by (simp add: float_pow_def)





lemma float_le_Fin_zero [simp]: "float_le (Fin 0) (Fin 0)"
  by simp












section \<open>Properties of the remaining balance in double precision\<close>

text \<open>
  The double model at the input at which the exact one returns a negative balance, and at
  an input on which the power overflows.
\<close>

lemma zero_rate_overpaid_negative_float:
  "calculate_remaining_balance_float pw (Fin 100) (Fin 0) 10 20 = Inr (Fin (- 100))"
  by (simp add: float_eval)

lemma fl_two_power_2000: "fl (2 ^ 2000) = PosInf"
proof -
  have "floor_log2 (2 ^ 2000) = 2000"
    by (rule floor_log2_unique) simp_all
  then have "ulp (2 ^ 2000) = 2 ^ 1948"
    by (simp add: ulp_def)
  moreover have "(2::real) ^ 2000 / 2 ^ 1948 = of_int (2 ^ 52)"
    by simp
  ultimately have "round_real (2 ^ 2000) = 2 ^ 2000"
    by (simp only: round_real_def nearest_even_of_int) simp
  then show ?thesis
    by (simp add: fl_def)
qed

lemma overflow_example:
  "calculate_remaining_balance_float exact_pow (Fin 1) (Fin 1) 2000 12 = Inl OverflowError"
proof -
  have "fl 2 = Fin 2" "fl 2000 = Fin 2000"
    by (simp_all add: fl_eval)
  with fl_two_power_2000 show ?thesis
    by (simp add: calculate_remaining_balance_float_def float_pow_def int_to_float_def
        exact_pow_def)
qed



text \<open>
  Claim C7, as amended: for a rate other than 0 and months paid equal to the total term,
  the function returns exactly 0 whenever it returns, for every principal. It raises
  \<open>OverflowError\<close> or \<open>ZeroDivisionError\<close> otherwise, and it returns once the power
  has been computed and the factor minus 1 is not 0.
\<close>

theorem paid_off_float:
  assumes "rate \<noteq> Fin 0"
  shows "(\<forall>b. calculate_remaining_balance_float pw P rate n n = Inr b \<longrightarrow> b = Fin 0)
     \<and> (\<forall>e. calculate_remaining_balance_float pw P rate n n = Inl e \<longrightarrow>
            e = OverflowError \<or> e = ZeroDivisionError)
     \<and> (\<forall>factor. float_pow pw (float_add (Fin 1) rate) n = Inr factor \<longrightarrow>
            float_sub factor (Fin 1) \<noteq> Fin 0 \<longrightarrow>
            calculate_remaining_balance_float pw P rate n n = Inr (Fin 0))"
proof -
  let ?base = "float_add (Fin 1) rate"
  show ?thesis
  proof (cases "float_pow pw ?base n")
    case (Inl e)
    with assms float_pow_errors [OF Inl] show ?thesis
      by (simp add: calculate_remaining_balance_float_def)
  next
    case (Inr factor)
    let ?m = "float_mul P (float_sub factor factor)"
    let ?d = "float_sub factor (Fin 1)"
    have m: "?m = Fin 0 \<or> ?m = NaN"
      by (rule float_mul_zero_or_nan [OF float_sub_self])
    have eq: "calculate_remaining_balance_float pw P rate n n =
        (case float_div ?m ?d of Inl e \<Rightarrow> Inl e | Inr balance \<Rightarrow> Inr (float_max0 balance))"
      using assms Inr by (simp add: calculate_remaining_balance_float_def)
    show ?thesis
    proof (cases "float_div ?m ?d")
      case (Inl e)
      from float_div_errors [OF Inl] Inl Inr show ?thesis
        by (simp add: eq)
    next
      case (Inr balance)
      from float_div_zero_or_nan [OF m Inr] have "float_max0 balance = Fin 0" by auto
      with Inr \<open>float_pow pw ?base n = Inr factor\<close> show ?thesis
        by (simp add: eq)
    qed
  qed
qed

theorem paid_off_float_witness:
  "calculate_remaining_balance_float exact_pow (Fin 100) (Fin (1 / 4)) 2 2 = Inr (Fin 0)"
proof -
  have r: "Fin (1 / 4) \<noteq> Fin 0" by simp
  have p: "float_pow exact_pow (float_add (Fin 1) (Fin (1 / 4))) 2 = Inr (Fin (25 / 16))"
    by (simp add: float_eval)
  have d: "float_sub (Fin (25 / 16)) (Fin 1) \<noteq> Fin 0"
    by (simp add: float_eval)
  from paid_off_float [OF r, of exact_pow "Fin 100" 2] p d show ?thesis
    by blast
qed

text \<open>
  Claim C7 as first stated (every rate above 0 gives 0) fails for a rate so small that
  \<open>1 + rate\<close> rounds to 1: with a principal of 100, a rate of \<open>2 ^ - 53\<close> and 2 of 2
  months paid, the factor is 1 and the division raises \<open>ZeroDivisionError\<close>.
\<close>

theorem tiny_rate_counterexample:
  "calculate_remaining_balance_float exact_pow (Fin 100) (Fin (1 / 2 ^ 53)) 2 2
     = Inl ZeroDivisionError"
  by (simp add: float_eval)

text \<open>
  Claim C8, as amended: for a positive term \<open>n\<close> and a rate of exactly 0 the function
  returns \<open>principal - principal / n * p\<close> with \<open>n\<close> and \<open>p\<close> converted to floats
  and each of the three operations rounded to a double, and with no clamp or other
  adjustment. When \<open>n\<close> and \<open>p\<close> convert exactly and the quotient, the product and
  the difference are doubles, this is exactly \<open>principal * (1 - p / n)\<close>.
\<close>

theorem zero_rate_linear_float:
  assumes "0 < n"
  shows "calculate_remaining_balance_float pw (Fin a) (Fin 0) n p =
           (case int_to_float n of
              Inl e \<Rightarrow> Inl e
            | Inr nd \<Rightarrow>
               (case int_to_float p of
                  Inl e \<Rightarrow> Inl e
                | Inr pd \<Rightarrow> Inr (float_sub (Fin a) (float_mul (fl (a / nd)) (Fin pd)))))
     \<and> (is_double (of_int n) \<and> is_double (of_int p) \<and> is_double (a / of_int n)
          \<and> is_double (a / of_int n * of_int p) \<and> is_double (a - a / of_int n * of_int p)
        \<longrightarrow> calculate_remaining_balance_float pw (Fin a) (Fin 0) n p
              = Inr (Fin (a * (1 - of_int p / of_int n))))"
proof -
  have general: "calculate_remaining_balance_float pw (Fin a) (Fin 0) n p =
           (case int_to_float n of
              Inl e \<Rightarrow> Inl e
            | Inr nd \<Rightarrow>
               (case int_to_float p of
                  Inl e \<Rightarrow> Inl e
                | Inr pd \<Rightarrow> Inr (float_sub (Fin a) (float_mul (fl (a / nd)) (Fin pd)))))"
  proof (cases "int_to_float n")
    case (Inl e)
    then show ?thesis by (simp add: calculate_remaining_balance_float_def)
  next
    case (Inr nd)
    from int_to_float_nonzero [OF assms Inr] Inr show ?thesis
      by (simp add: calculate_remaining_balance_float_def split: sum.splits)
  qed
  have exact: "calculate_remaining_balance_float pw (Fin a) (Fin 0) n p
              = Inr (Fin (a * (1 - of_int p / of_int n)))"
    if d: "is_double (of_int n)" "is_double (of_int p)" "is_double (a / of_int n)"
      "is_double (a / of_int n * of_int p)" "is_double (a - a / of_int n * of_int p)"
  proof -
    from assms have "a - a / of_int n * of_int p = a * (1 - of_int p / of_int n)"
      by (simp add: field_simps)
    with d show ?thesis
      by (simp add: general int_to_float_double float_sub_def is_double_def)
  qed
  from general exact show ?thesis by blast
qed

theorem zero_rate_linear_float_witness:
  "calculate_remaining_balance_float exact_pow (Fin 1200) (Fin 0) 12 5 = Inr (Fin 700)
   \<and> calculate_remaining_balance_float exact_pow (Fin 1200) (Fin 0) 12 18 = Inr (Fin (- 600))"
proof -
  have d: "is_double (of_int 12)" "is_double (of_int 5)" "is_double (of_int 18)"
      "is_double (1200 / of_int 12)" "is_double (1200 / of_int 12 * of_int 5)"
      "is_double (1200 / of_int 12 * of_int 18)"
      "is_double (1200 - 1200 / of_int 12 * of_int 5)"
      "is_double (1200 - 1200 / of_int 12 * of_int 18)"
    by (simp_all add: is_double_def fl_eval)
  have n: "0 < (12::int)" by simp
  from zero_rate_linear_float [OF n, where pw = exact_pow and a = 1200 and p = 5, THEN conjunct2] d
  have five: "calculate_remaining_balance_float exact_pow (Fin 1200) (Fin 0) 12 5 = Inr (Fin 700)"
    by simp
  from zero_rate_linear_float [OF n, where pw = exact_pow and a = 1200 and p = 18, THEN conjunct2] d
  have eighteen:
    "calculate_remaining_balance_float exact_pow (Fin 1200) (Fin 0) 12 18 = Inr (Fin (- 600))"
    by simp
  from five eighteen show ?thesis by simp
qed

text \<open>
  Claim C8 as first stated (exactly \<open>principal * (1 - p / n)\<close>) fails with a principal
  of 100, a term of 3 months and 1 month paid: the function returns
  66.66666666666666, which is neither the real number \<open>200 / 3\<close> nor the double
  66.66666666666667 that \<open>principal * (1 - p / n)\<close> evaluates to.
\<close>

theorem zero_rate_rounding_counterexample:
  "calculate_remaining_balance_float exact_pow (Fin 100) (Fin 0) 3 1
     = Inr (Fin (4691249611844266 / 2 ^ 46))
   \<and> (4691249611844266 / 2 ^ 46 :: real) \<noteq> 100 * (1 - 1 / 3)
   \<and> float_mul (Fin 100) (float_sub (Fin 1) (fl (1 / 3))) = Fin (4691249611844267 / 2 ^ 46)"
  by (simp add: float_eval)

text \<open>
  Claim C9, as amended: for a principal that is a double above 0 and a positive term,
  with no month paid the function returns exactly the principal when the rate is exactly
  0. When the rate is not 0 it returns \<open>max(0, principal * d / d)\<close> with
  \<open>d = factor - 1\<close>, each operation rounded; this is exactly the principal when
  \<open>d\<close> is not 0 and \<open>principal * d\<close> is a double.
\<close>

theorem nothing_paid_float:
  assumes "0 < a" and "is_double a" and "0 < n"
  shows "calculate_remaining_balance_float pw (Fin a) (Fin 0) n 0 =
           (case int_to_float n of Inl e \<Rightarrow> Inl e | Inr nd \<Rightarrow> Inr (Fin a))
     \<and> (rate \<noteq> Fin 0 \<longrightarrow>
          calculate_remaining_balance_float pw (Fin a) rate n 0 =
            (case float_pow pw (float_add (Fin 1) rate) n of
               Inl e \<Rightarrow> Inl e
             | Inr factor \<Rightarrow>
                (case float_div (float_mul (Fin a) (float_sub factor (Fin 1)))
                        (float_sub factor (Fin 1)) of
                   Inl e \<Rightarrow> Inl e
                 | Inr balance \<Rightarrow> Inr (float_max0 balance))))
     \<and> (\<forall>f d. rate \<noteq> Fin 0
          \<and> float_pow pw (float_add (Fin 1) rate) n = Inr (Fin f)
          \<and> float_sub (Fin f) (Fin 1) = Fin d \<and> d \<noteq> 0 \<and> is_double (a * d)
        \<longrightarrow> calculate_remaining_balance_float pw (Fin a) rate n 0 = Inr (Fin a))"
proof -
  have zero: "calculate_remaining_balance_float pw (Fin a) (Fin 0) n 0 =
           (case int_to_float n of Inl e \<Rightarrow> Inl e | Inr nd \<Rightarrow> Inr (Fin a))"
  proof (cases "int_to_float n")
    case (Inl e)
    then show ?thesis by (simp add: calculate_remaining_balance_float_def)
  next
    case (Inr nd)
    from int_to_float_pos [OF assms(3) Inr] have nd: "1 \<le> nd" .
    with assms(1) have "0 \<le> a / nd" "a / nd \<le> a"
      by (simp_all add: field_simps mult_le_cancel_left1)
    from fl_finite_between [OF is_double_zero assms(2) this]
    have q: "fl (a / nd) = Fin (round_real (a / nd))" .
    from assms(2) have a: "fl a = Fin a" by (simp add: is_double_def)
    from nd Inr q a show ?thesis
      by (simp add: calculate_remaining_balance_float_def float_sub_def)
  qed
  have general: "calculate_remaining_balance_float pw (Fin a) rate n 0 =
            (case float_pow pw (float_add (Fin 1) rate) n of
               Inl e \<Rightarrow> Inl e
             | Inr factor \<Rightarrow>
                (case float_div (float_mul (Fin a) (float_sub factor (Fin 1)))
                        (float_sub factor (Fin 1)) of
                   Inl e \<Rightarrow> Inl e
                 | Inr balance \<Rightarrow> Inr (float_max0 balance)))"
    if "rate \<noteq> Fin 0"
    using that
    by (simp add: calculate_remaining_balance_float_def float_pow_zero split: sum.splits)
  have exact: "calculate_remaining_balance_float pw (Fin a) rate n 0 = Inr (Fin a)"
    if "rate \<noteq> Fin 0"
      and "float_pow pw (float_add (Fin 1) rate) n = Inr (Fin f)"
      and "float_sub (Fin f) (Fin 1) = Fin d" and "d \<noteq> 0" and "is_double (a * d)"
    for f d
  proof -
    from that(5) have "fl (a * d) = Fin (a * d)" by (simp add: is_double_def)
    moreover from assms(2) have "fl a = Fin a" by (simp add: is_double_def)
    ultimately show ?thesis
      using that(2,3,4) assms(1) by (simp add: general [OF that(1)])
  qed
  from zero general exact show ?thesis by blast
qed

theorem nothing_paid_float_witness:
  "calculate_remaining_balance_float exact_pow (Fin 320000) (Fin 0) 360 0 = Inr (Fin 320000)
   \<and> calculate_remaining_balance_float exact_pow (Fin 100) (Fin (1 / 4)) 2 0 = Inr (Fin 100)"
proof -
  have a: "is_double 320000" "is_double 100" "is_double (100 * (9 / 16))"
    by (simp_all add: is_double_def fl_eval)
  have n: "int_to_float 360 = Inr 360"
    by (simp add: int_to_float_def fl_eval)
  have r: "Fin (1 / 4) \<noteq> Fin 0" by simp
  have p: "float_pow exact_pow (float_add (Fin 1) (Fin (1 / 4))) 2 = Inr (Fin (25 / 16))"
    by (simp add: float_eval)
  have d: "float_sub (Fin (25 / 16)) (Fin 1) = Fin (9 / 16)"
    by (simp add: float_eval)
  have z: "(9 / 16 :: real) \<noteq> 0" by simp
  have pos: "0 < (320000::real)" "0 < (100::real)" "0 < (360::int)" "0 < (2::int)" by simp_all
  from nothing_paid_float [OF pos(1) a(1) pos(3), where pw = exact_pow, THEN conjunct1] n
  have one: "calculate_remaining_balance_float exact_pow (Fin 320000) (Fin 0) 360 0
      = Inr (Fin 320000)"
    by simp
  from nothing_paid_float [OF pos(2) a(2) pos(4), where pw = exact_pow
      and rate = "Fin (1 / 4)", THEN conjunct2, THEN conjunct2, rule_format,
      of "25 / 16" "9 / 16"] r p d z a(3)
  have two: "calculate_remaining_balance_float exact_pow (Fin 100) (Fin (1 / 4)) 2 0
      = Inr (Fin 100)"
    by blast
  from one two show ?thesis by simp
qed

text \<open>
  Claim C9 as first stated (exactly the principal for every rate) fails with a principal
  of 100, a rate of 0.25 and a term of 21 months, where the function returns
  99.99999999999999, and with a rate of \<open>2 ^ - 53\<close>, where it raises
  \<open>ZeroDivisionError\<close>.
\<close>

theorem nothing_paid_counterexample:
  "calculate_remaining_balance_float exact_pow (Fin 100) (Fin (1 / 4)) 21 0
     = Inr (Fin (7036874417766399 / 2 ^ 46))
   \<and> (7036874417766399 / 2 ^ 46 :: real) \<noteq> 100
   \<and> calculate_remaining_balance_float exact_pow (Fin 100) (Fin (1 / 2 ^ 53)) 2 0
     = Inl ZeroDivisionError"
  by (simp add: float_eval)

section \<open>Properties of the year loop\<close>

text \<open>What a completed iteration assigned, read off the body of the loop.\<close>

lemma year_iteration_values:
  assumes "year_iteration inp acc year = Inr (acc', v)"
  shows "rental_net_worth v = equity v + cumulative_rental_cash_flow acc'"
    and "cumulative_rental_cash_flow acc' =
           (if year = 0 then cumulative_rental_cash_flow acc
            else cumulative_rental_cash_flow acc + net_rental_cash_flow v)"
    and "year_cash_flow v = (if year = 0 then - costs_to_rent inp else net_rental_cash_flow v)"
    and "cumulative_opportunity_cost acc' =
           (if year > 0
            then cumulative_opportunity_cost acc * (1 + investment_return inp / 100)
                   + year_opportunity_cost v
            else cumulative_opportunity_cost acc)"
    and "sale_price v = home_value v"
    and "capital_gain v = sale_price v - purchase_price inp"
    and "capital_gains_tax_owed v =
           (if capital_gain v > 0
            then (if is_primary_residence inp \<and> year \<le> 3
                  then max 0 (capital_gain v - 500000) else capital_gain v)
                 * (capital_gains_tax inp / 100)
            else 0)"
    and "better v = (if rental_net_worth v > invested_value v then ''RENT'' else ''SELL'')"
  using assms
  by (auto simp: year_iteration_def Let_def split: sum.splits py_number.splits)

lemma year_iteration_home_value:
  assumes "year_iteration inp acc year = Inr (acc', v)"
    and "- 100 < home_appreciation inp"
  shows "home_value v = purchase_price inp
           * (1 + home_appreciation inp / 100) powr (real_of_int (elapsed inp + int year * 12) / 12)"
  using assms
  by (auto simp: year_iteration_def py_fpow_def Let_def split: sum.splits py_number.splits)

lemma year_iteration_ignores_opportunity_cost:
  "map_sum id (\<lambda>(a, v). (cumulative_rental_cash_flow a, v))
       (year_iteration inp (acc\<lparr>cumulative_opportunity_cost := c\<rparr>) year)
     = map_sum id (\<lambda>(a, v). (cumulative_rental_cash_flow a, v)) (year_iteration inp acc year)"
  by (simp add: year_iteration_def Let_def split: sum.splits py_number.splits split del: if_split cong: if_cong)

lemma balance_returns:
  assumes "0 \<le> r" and "0 < n"
  shows "\<exists>b. calculate_remaining_balance P r n p = Inr b"
proof (cases "r = 0")
  case True
  with assms show ?thesis by (simp add: balance_zero_rate)
next
  case False
  with assms have "0 < r" by simp
  from balance_positive_rate [OF this \<open>0 < n\<close>] show ?thesis by blast
qed

lemma year_iteration_returns:
  assumes "0 \<le> interest_rate inp" and "- 100 < home_appreciation inp"
    and "int year \<le> years_to_hold inp"
  shows "\<exists>row. year_iteration inp acc year = Inr row"
proof -
  obtain b where b: "calculate_remaining_balance (original_loan_amount inp) (monthly_rate inp)
      total_loan_months (elapsed inp + int year * 12) = Inr b"
    using balance_returns [of "monthly_rate inp" total_loan_months] assms(1)
    by (auto simp: monthly_rate_def total_loan_months_def)
  from assms(2) have g: "0 < 1 + home_appreciation inp / 100" by simp
  from assms(3) have p: "0 \<le> years_to_hold inp - int year" by simp
  show ?thesis
    using b g p by (simp add: year_iteration_def py_fpow_def py_pow_def Let_def)
qed

lemma year_loop_nth:
  assumes "i < length (fst (year_loop inp acc ys))"
  shows "i < length ys
     \<and> year_iteration inp (if i = 0 then acc else fst (fst (year_loop inp acc ys) ! (i - 1)))
          (ys ! i) = Inr (fst (year_loop inp acc ys) ! i)"
  using assms
proof (induction ys arbitrary: acc i)
  case Nil
  then show ?case by simp
next
  case (Cons y ys)
  show ?case
  proof (cases "year_iteration inp acc y")
    case (Inl e)
    with Cons.prems show ?thesis by simp
  next
    case (Inr row)
    obtain rows stopped where rest: "year_loop inp (fst row) ys = (rows, stopped)"
      by (cases "year_loop inp (fst row) ys")
    show ?thesis
    proof (cases i)
      case 0
      with Inr rest show ?thesis by simp
    next
      case (Suc j)
      with Cons.prems Inr rest have "j < length (fst (year_loop inp (fst row) ys))" by simp
      from Cons.IH [OF this] Inr rest Suc show ?thesis
        by (cases j) auto
    qed
  qed
qed

lemma year_loop_completes:
  assumes "0 \<le> interest_rate inp" and "- 100 < home_appreciation inp"
    and "\<forall>y \<in> set ys. int y \<le> years_to_hold inp"
  shows "snd (year_loop inp acc ys) = None \<and> length (fst (year_loop inp acc ys)) = length ys"
  using assms(3)
proof (induction ys arbitrary: acc)
  case Nil
  then show ?case by simp
next
  case (Cons y ys)
  from Cons.prems have "int y \<le> years_to_hold inp" by simp
  from year_iteration_returns [OF assms(1,2) this]
  obtain row where row: "year_iteration inp acc y = Inr row" by blast
  from Cons.prems have "\<forall>y \<in> set ys. int y \<le> years_to_hold inp" by simp
  from Cons.IH [OF this, of "fst row"] row show ?case
    by (cases "year_loop inp (fst row) ys") simp
qed

lemma projection_completes:
  assumes "0 \<le> interest_rate inp" and "- 100 < home_appreciation inp"
  shows "snd (projection inp) = None
     \<and> length (fst (projection inp)) = nat (years_to_hold inp + 1)"
proof -
  have "\<forall>y \<in> set [0 ..< nat (years_to_hold inp + 1)]. int y \<le> years_to_hold inp"
    by auto
  from year_loop_completes [OF assms this] show ?thesis
    by (simp add: projection_def)
qed

lemma projection_nth:
  assumes "i < length (fst (projection inp))"
  shows "year_iteration inp
           (if i = 0
            then \<lparr> cumulative_rental_cash_flow = - costs_to_rent inp,
                   cumulative_opportunity_cost = 0 \<rparr>
            else fst (fst (projection inp) ! (i - 1)))
           i = Inr (fst (projection inp) ! i)"
proof -
  let ?ys = "[0 ..< nat (years_to_hold inp + 1)]"
  let ?acc = "\<lparr> cumulative_rental_cash_flow = - costs_to_rent inp,
                 cumulative_opportunity_cost = 0 \<rparr>"
  from assms have len: "i < length (fst (year_loop inp ?acc ?ys))"
    by (simp only: projection_def)
  from year_loop_nth [OF len] have "i < length ?ys"
    and step: "year_iteration inp
                 (if i = 0 then ?acc else fst (fst (year_loop inp ?acc ?ys) ! (i - 1)))
                 (?ys ! i) = Inr (fst (year_loop inp ?acc ?ys) ! i)"
    by blast+
  from \<open>i < length ?ys\<close> have "?ys ! i = i"
    by (simp del: upt_Suc)
  with step show ?thesis
    by (simp only: projection_def)
qed

text \<open>
  Claim C4: the first iteration (year 0) runs from an accumulator that holds
  \<open>-costs_to_rent\<close>; its reported cash flow is \<open>-costs_to_rent\<close>, whatever the
  net rental cash flow of that year is, and it leaves the cumulative cash flow at
  \<open>-costs_to_rent\<close>. An iteration for year 0 never changes the cumulative cash flow.
  In every later year the reported cash flow is the net rental cash flow of the year and
  the cumulative cash flow grows by it.
\<close>

theorem year_zero_cash_flow_special_case:
  assumes "i < length (fst (projection inp))"
  shows "(i = 0 \<longrightarrow>
           (\<exists>acc. cumulative_rental_cash_flow acc = - costs_to_rent inp
               \<and> year_iteration inp acc 0 = Inr (fst (projection inp) ! i))
         \<and> year_cash_flow (snd (fst (projection inp) ! i)) = - costs_to_rent inp
         \<and> cumulative_rental_cash_flow (fst (fst (projection inp) ! i)) = - costs_to_rent inp)
     \<and> (0 < i \<longrightarrow>
           year_cash_flow (snd (fst (projection inp) ! i))
             = net_rental_cash_flow (snd (fst (projection inp) ! i))
         \<and> cumulative_rental_cash_flow (fst (fst (projection inp) ! i))
             = cumulative_rental_cash_flow (fst (fst (projection inp) ! (i - 1)))
                 + net_rental_cash_flow (snd (fst (projection inp) ! i)))
     \<and> (\<forall>acc acc' v. year_iteration inp acc 0 = Inr (acc', v) \<longrightarrow>
           cumulative_rental_cash_flow acc' = cumulative_rental_cash_flow acc)"
proof -
  let ?row = "fst (projection inp) ! i"
  let ?init = "\<lparr> cumulative_rental_cash_flow = - costs_to_rent inp,
                  cumulative_opportunity_cost = 0 \<rparr>"
  note step = projection_nth [OF assms]
  have first: "i = 0 \<longrightarrow>
           (\<exists>acc. cumulative_rental_cash_flow acc = - costs_to_rent inp
               \<and> year_iteration inp acc 0 = Inr ?row)
         \<and> year_cash_flow (snd ?row) = - costs_to_rent inp
         \<and> cumulative_rental_cash_flow (fst ?row) = - costs_to_rent inp"
  proof
    assume "i = 0"
    with step have s0: "year_iteration inp ?init 0 = Inr (fst ?row, snd ?row)" by simp
    then have "\<exists>acc. cumulative_rental_cash_flow acc = - costs_to_rent inp
               \<and> year_iteration inp acc 0 = Inr ?row"
      by (intro exI [of _ ?init]) simp
    with year_iteration_values(2,3) [OF s0] show "(\<exists>acc. cumulative_rental_cash_flow acc = - costs_to_rent inp
               \<and> year_iteration inp acc 0 = Inr ?row)
         \<and> year_cash_flow (snd ?row) = - costs_to_rent inp
         \<and> cumulative_rental_cash_flow (fst ?row) = - costs_to_rent inp"
      by simp
  qed
  have later: "0 < i \<longrightarrow>
           year_cash_flow (snd ?row) = net_rental_cash_flow (snd ?row)
         \<and> cumulative_rental_cash_flow (fst ?row)
             = cumulative_rental_cash_flow (fst (fst (projection inp) ! (i - 1)))
                 + net_rental_cash_flow (snd ?row)"
  proof
    assume "0 < i"
    with step have "year_iteration inp (fst (fst (projection inp) ! (i - 1))) i
        = Inr (fst ?row, snd ?row)" by simp
    from year_iteration_values(2,3) [OF this] \<open>0 < i\<close>
    show "year_cash_flow (snd ?row) = net_rental_cash_flow (snd ?row)
         \<and> cumulative_rental_cash_flow (fst ?row)
             = cumulative_rental_cash_flow (fst (fst (projection inp) ! (i - 1)))
                 + net_rental_cash_flow (snd ?row)"
      by simp
  qed
  have "\<forall>acc acc' v. year_iteration inp acc 0 = Inr (acc', v) \<longrightarrow>
           cumulative_rental_cash_flow acc' = cumulative_rental_cash_flow acc"
    using year_iteration_values(2) by fastforce
  with first later show ?thesis
    by blast
qed

theorem year_zero_cash_flow_special_case_witness:
  "(\<exists>acc. cumulative_rental_cash_flow acc = - 5000
       \<and> year_iteration defaults acc 0 = Inr (fst (projection defaults) ! 0))
   \<and> year_cash_flow (snd (fst (projection defaults) ! 0)) = - 5000
   \<and> cumulative_rental_cash_flow (fst (fst (projection defaults) ! 0)) = - 5000
   \<and> year_cash_flow (snd (fst (projection defaults) ! 1))
       = net_rental_cash_flow (snd (fst (projection defaults) ! 1))
   \<and> cumulative_rental_cash_flow (fst (fst (projection defaults) ! 1))
       = - 5000 + net_rental_cash_flow (snd (fst (projection defaults) ! 1))"
proof -
  have len: "length (fst (projection defaults)) = 11"
    using projection_completes [of defaults] by (simp add: defaults_def)
  have c: "costs_to_rent defaults = 5000"
    by (simp add: defaults_def)
  from len have "0 < length (fst (projection defaults))"
    and "1 < length (fst (projection defaults))" by simp_all
  from year_zero_cash_flow_special_case [OF this(1)]
    year_zero_cash_flow_special_case [OF this(2)]
  show ?thesis by (simp add: c)
qed

text \<open>
  Claim C10: at the end of the iteration for year \<open>y\<close> the cumulative rental cash flow
  is \<open>-costs_to_rent\<close> plus the sum over \<open>k = 1..y\<close> of the net rental cash flow
  computed in year \<open>k\<close>; for \<open>y = 0\<close> it is \<open>-costs_to_rent\<close>. The rows of
  \<open>projection\<close> are the completed iterations, row \<open>i\<close> being that of year \<open>i\<close>.
\<close>

theorem cumulative_cash_flow_invariant:
  assumes "i < length (fst (projection inp))"
  shows "cumulative_rental_cash_flow (fst (fst (projection inp) ! i)) =
           - costs_to_rent inp
             + (\<Sum>k = 1..i. net_rental_cash_flow (snd (fst (projection inp) ! k)))"
  using assms
proof (induction i)
  case 0
  from projection_nth [OF 0]
  have "year_iteration inp
          \<lparr> cumulative_rental_cash_flow = - costs_to_rent inp, cumulative_opportunity_cost = 0 \<rparr>
          0 = Inr (fst (fst (projection inp) ! 0), snd (fst (projection inp) ! 0))"
    by simp
  from year_iteration_values(2) [OF this] show ?case by simp
next
  case (Suc i)
  from Suc.prems have "i < length (fst (projection inp))" by simp
  note ih = Suc.IH [OF this]
  from projection_nth [OF Suc.prems]
  have "year_iteration inp (fst (fst (projection inp) ! i)) (Suc i)
          = Inr (fst (fst (projection inp) ! Suc i), snd (fst (projection inp) ! Suc i))"
    by simp
  from year_iteration_values(2) [OF this] ih show ?case by simp
qed

theorem cumulative_cash_flow_invariant_witness:
  "cumulative_rental_cash_flow (fst (fst (projection defaults) ! 0)) = - 5000
   \<and> cumulative_rental_cash_flow (fst (fst (projection defaults) ! 10)) =
       - 5000 + (\<Sum>k = 1..10. net_rental_cash_flow (snd (fst (projection defaults) ! k)))"
proof -
  have len: "length (fst (projection defaults)) = 11"
    using projection_completes [of defaults] by (simp add: defaults_def)
  have c: "costs_to_rent defaults = 5000"
    by (simp add: defaults_def)
  from len have "0 < length (fst (projection defaults))"
    and "10 < length (fst (projection defaults))" by simp_all
  from cumulative_cash_flow_invariant [OF this(1)] cumulative_cash_flow_invariant [OF this(2)]
  show ?thesis by (simp add: c)
qed

text \<open>
  Claim C2: in every year of the loop the rent-scenario net worth is the equity plus the
  cumulative rental cash flow as it stands after the year's update. The cumulative
  opportunity cost is updated in every year after year 0, yet it does not enter the net
  worth: an iteration started from any other value of that accumulator raises the same
  exception or yields the same net worth.
\<close>

theorem rental_net_worth_excludes_opportunity_cost:
  assumes "i < length (fst (projection inp))"
  shows "rental_net_worth (snd (fst (projection inp) ! i))
           = equity (snd (fst (projection inp) ! i))
               + cumulative_rental_cash_flow (fst (fst (projection inp) ! i))
     \<and> (0 < i \<longrightarrow>
           cumulative_opportunity_cost (fst (fst (projection inp) ! i))
             = cumulative_opportunity_cost (fst (fst (projection inp) ! (i - 1)))
                 * (1 + investment_return inp / 100)
                 + year_opportunity_cost (snd (fst (projection inp) ! i)))
     \<and> (\<forall>acc c year.
           map_sum id (\<lambda>(a, v). rental_net_worth v)
               (year_iteration inp (acc\<lparr>cumulative_opportunity_cost := c\<rparr>) year)
             = map_sum id (\<lambda>(a, v). rental_net_worth v) (year_iteration inp acc year))"
proof -
  let ?row = "fst (projection inp) ! i"
  note step = projection_nth [OF assms]
  then have s: "year_iteration inp
          (if i = 0
           then \<lparr> cumulative_rental_cash_flow = - costs_to_rent inp,
                  cumulative_opportunity_cost = 0 \<rparr>
           else fst (fst (projection inp) ! (i - 1)))
          i = Inr (fst ?row, snd ?row)"
    by simp
  have worth: "rental_net_worth (snd ?row) = equity (snd ?row) + cumulative_rental_cash_flow (fst ?row)"
    by (rule year_iteration_values(1) [OF s])
  have updated: "0 < i \<longrightarrow>
           cumulative_opportunity_cost (fst ?row)
             = cumulative_opportunity_cost (fst (fst (projection inp) ! (i - 1)))
                 * (1 + investment_return inp / 100)
                 + year_opportunity_cost (snd ?row)"
  proof
    assume "0 < i"
    with s have "year_iteration inp (fst (fst (projection inp) ! (i - 1))) i
        = Inr (fst ?row, snd ?row)" by simp
    from year_iteration_values(4) [OF this] \<open>0 < i\<close>
    show "cumulative_opportunity_cost (fst ?row)
             = cumulative_opportunity_cost (fst (fst (projection inp) ! (i - 1)))
                 * (1 + investment_return inp / 100)
                 + year_opportunity_cost (snd ?row)"
      by simp
  qed
  have proj: "map_sum id (\<lambda>(a, v). rental_net_worth v) r
      = map_sum id (\<lambda>(k, v). rental_net_worth v)
          (map_sum id (\<lambda>(a, v). (cumulative_rental_cash_flow a, v)) r)"
    for r :: "py_error + (accumulators \<times> year_values)"
    by (cases r) auto
  have "map_sum id (\<lambda>(a, v). rental_net_worth v)
               (year_iteration inp (acc\<lparr>cumulative_opportunity_cost := c\<rparr>) year)
             = map_sum id (\<lambda>(a, v). rental_net_worth v) (year_iteration inp acc year)"
    for acc c year
    by (simp only: proj year_iteration_ignores_opportunity_cost)
  with worth updated show ?thesis
    by blast
qed

theorem rental_net_worth_excludes_opportunity_cost_witness:
  "rental_net_worth (snd (fst (projection defaults) ! 2))
     = equity (snd (fst (projection defaults) ! 2))
         + cumulative_rental_cash_flow (fst (fst (projection defaults) ! 2))
   \<and> cumulative_opportunity_cost (fst (fst (projection defaults) ! 2))
     = cumulative_opportunity_cost (fst (fst (projection defaults) ! 1)) * (107 / 100)
         + year_opportunity_cost (snd (fst (projection defaults) ! 2))"
proof -
  have len: "length (fst (projection defaults)) = 11"
    using projection_completes [of defaults] by (simp add: defaults_def)
  have c: "investment_return defaults = 7"
    by (simp add: defaults_def)
  from len have "2 < length (fst (projection defaults))" by simp
  from rental_net_worth_excludes_opportunity_cost [OF this]
  show ?thesis by (simp add: c)
qed

lemma projection_capital_gain:
  assumes "i < length (fst (projection inp))" and "- 100 < home_appreciation inp"
  shows "capital_gain (snd (fst (projection inp) ! i)) =
           purchase_price inp
             * (1 + home_appreciation inp / 100) powr (real_of_int (elapsed inp + int i * 12) / 12)
           - purchase_price inp"
proof -
  let ?row = "fst (projection inp) ! i"
  from projection_nth [OF assms(1)]
  have s: "year_iteration inp
          (if i = 0
           then \<lparr> cumulative_rental_cash_flow = - costs_to_rent inp,
                  cumulative_opportunity_cost = 0 \<rparr>
           else fst (fst (projection inp) ! (i - 1)))
          i = Inr (fst ?row, snd ?row)"
    by simp
  from year_iteration_values(5,6) [OF s] year_iteration_home_value [OF s assms(2)]
  show ?thesis by simp
qed

text \<open>
  Claim C3: in every year of the loop the capital gain is the sale price minus the
  purchase price, and the capital-gains tax owed is 0 when the gain is 0 or less, and
  otherwise the taxable gain times the capital-gains rate, where the taxable gain is
  \<open>max(0, gain - 500000)\<close> when the primary-residence flag is set and the year is at
  most 3, and the whole gain otherwise. With the flag set, a year of at most 3 and a gain
  strictly between 0 and 500000 the tax owed is 0.
\<close>

theorem capital_gains_tax_rule:
  assumes "i < length (fst (projection inp))"
  shows "capital_gain (snd (fst (projection inp) ! i))
           = sale_price (snd (fst (projection inp) ! i)) - purchase_price inp
     \<and> capital_gains_tax_owed (snd (fst (projection inp) ! i))
           = (if capital_gain (snd (fst (projection inp) ! i)) \<le> 0 then 0
              else (if is_primary_residence inp \<and> i \<le> 3
                    then max 0 (capital_gain (snd (fst (projection inp) ! i)) - 500000)
                    else capital_gain (snd (fst (projection inp) ! i)))
                   * (capital_gains_tax inp / 100))
     \<and> (is_primary_residence inp \<and> i \<le> 3
          \<and> 0 < capital_gain (snd (fst (projection inp) ! i))
          \<and> capital_gain (snd (fst (projection inp) ! i)) < 500000
         \<longrightarrow> capital_gains_tax_owed (snd (fst (projection inp) ! i)) = 0)"
proof -
  let ?row = "fst (projection inp) ! i"
  from projection_nth [OF assms]
  have s: "year_iteration inp
          (if i = 0
           then \<lparr> cumulative_rental_cash_flow = - costs_to_rent inp,
                  cumulative_opportunity_cost = 0 \<rparr>
           else fst (fst (projection inp) ! (i - 1)))
          i = Inr (fst ?row, snd ?row)"
    by simp
  note tax = year_iteration_values(7) [OF s]
  have "capital_gain (snd ?row) = sale_price (snd ?row) - purchase_price inp"
    by (rule year_iteration_values(6) [OF s])
  moreover have "capital_gains_tax_owed (snd ?row)
           = (if capital_gain (snd ?row) \<le> 0 then 0
              else (if is_primary_residence inp \<and> i \<le> 3
                    then max 0 (capital_gain (snd ?row) - 500000)
                    else capital_gain (snd ?row))
                   * (capital_gains_tax inp / 100))"
    using tax by (simp add: not_le)
  moreover have "is_primary_residence inp \<and> i \<le> 3
          \<and> 0 < capital_gain (snd ?row) \<and> capital_gain (snd ?row) < 500000
         \<longrightarrow> capital_gains_tax_owed (snd ?row) = 0"
    using tax by (simp add: max_def)
  ultimately show ?thesis
    by blast
qed

lemma default_growth_bounds:
  "1 < (103 / 100 :: real) powr (49 / 12)" "(103 / 100 :: real) powr (49 / 12) < 9 / 4"
  "1 < (103 / 100 :: real) powr (97 / 12)"
proof -
  show "1 < (103 / 100 :: real) powr (49 / 12)" by simp
  show "1 < (103 / 100 :: real) powr (97 / 12)" by simp
  have "(103 / 100 :: real) powr (49 / 12) \<le> (103 / 100) powr 5"
    by (intro powr_mono) simp_all
  also have "\<dots> = (103 / 100) ^ 5" by simp
  also have "\<dots> < 9 / 4" by (simp add: power_divide)
  finally show "(103 / 100 :: real) powr (49 / 12) < 9 / 4" .
qed

theorem capital_gains_tax_rule_witness:
  "(let v = snd (fst (projection defaults) ! 0)
    in 0 < capital_gain v \<and> capital_gain v < 500000 \<and> capital_gains_tax_owed v = 0)
   \<and> (let v = snd (fst (projection defaults) ! 4)
    in 0 < capital_gain v \<and> capital_gains_tax_owed v = capital_gain v * (15 / 100))
   \<and> (let v = snd (fst (projection (defaults\<lparr>home_appreciation := 0\<rparr>)) ! 0)
    in capital_gain v = 0 \<and> capital_gains_tax_owed v = 0)"
proof -
  let ?flat = "defaults\<lparr>home_appreciation := 0\<rparr>"
  have len: "length (fst (projection defaults)) = 11"
    using projection_completes [of defaults] by (simp add: defaults_def)
  have len': "length (fst (projection ?flat)) = 11"
    using projection_completes [of ?flat] by (simp add: defaults_def)
  from len have i0: "0 < length (fst (projection defaults))"
    and i4: "4 < length (fst (projection defaults))" by simp_all
  from len' have f0: "0 < length (fst (projection ?flat))" by simp
  have g0: "capital_gain (snd (fst (projection defaults) ! 0))
      = 400000 * (103 / 100) powr (49 / 12) - 400000"
    using projection_capital_gain [OF i0] by (simp add: defaults_def)
  have g4: "capital_gain (snd (fst (projection defaults) ! 4))
      = 400000 * (103 / 100) powr (97 / 12) - 400000"
    using projection_capital_gain [OF i4] by (simp add: defaults_def)
  have gf: "capital_gain (snd (fst (projection ?flat) ! 0)) = 0"
    using projection_capital_gain [OF f0] by (simp add: defaults_def)
  have b0: "0 < capital_gain (snd (fst (projection defaults) ! 0))"
      "capital_gain (snd (fst (projection defaults) ! 0)) < 500000"
    using default_growth_bounds(1,2) by (simp_all add: g0)
  have b4: "0 < capital_gain (snd (fst (projection defaults) ! 4))"
    using default_growth_bounds(3) by (simp add: g4)
  have p: "is_primary_residence defaults" "capital_gains_tax defaults = 15"
    by (simp_all add: defaults_def)
  from capital_gains_tax_rule [OF i0] b0 p
  have t0: "capital_gains_tax_owed (snd (fst (projection defaults) ! 0)) = 0"
    by simp
  from capital_gains_tax_rule [OF i4] b4 p
  have t4: "capital_gains_tax_owed (snd (fst (projection defaults) ! 4))
      = capital_gain (snd (fst (projection defaults) ! 4)) * (15 / 100)"
    by simp
  from capital_gains_tax_rule [OF f0] gf
  have tf: "capital_gains_tax_owed (snd (fst (projection ?flat) ! 0)) = 0"
    by simp
  from b0 b4 t0 t4 gf tf show ?thesis
    by (simp add: Let_def)
qed

text \<open>
  Claim C5: in every year of the loop the recommendation is \<open>RENT\<close> exactly when the
  rent-scenario net worth is strictly greater than the invested value of the sell
  scenario, and \<open>SELL\<close> otherwise; when the two are equal it is \<open>SELL\<close>.
\<close>

theorem recommendation_strict:
  assumes "i < length (fst (projection inp))"
  shows "better (snd (fst (projection inp) ! i))
           = (if rental_net_worth (snd (fst (projection inp) ! i))
                   > invested_value (snd (fst (projection inp) ! i))
              then ''RENT'' else ''SELL'')
     \<and> (better (snd (fst (projection inp) ! i)) = ''RENT''
           \<longleftrightarrow> rental_net_worth (snd (fst (projection inp) ! i))
                 > invested_value (snd (fst (projection inp) ! i)))
     \<and> (rental_net_worth (snd (fst (projection inp) ! i))
           = invested_value (snd (fst (projection inp) ! i))
         \<longrightarrow> better (snd (fst (projection inp) ! i)) = ''SELL'')"
proof -
  let ?row = "fst (projection inp) ! i"
  from projection_nth [OF assms]
  have "year_iteration inp
          (if i = 0
           then \<lparr> cumulative_rental_cash_flow = - costs_to_rent inp,
                  cumulative_opportunity_cost = 0 \<rparr>
           else fst (fst (projection inp) ! (i - 1)))
          i = Inr (fst ?row, snd ?row)"
    by simp
  from year_iteration_values(8) [OF this] show ?thesis
    by simp
qed

text \<open>Year 0 of a loan without interest, sold without fees at a fixed cost \<open>c\<close>.\<close>

lemma scenario_year_zero:
  "length (fst (projection (defaults\<lparr>interest_rate := 0, selling_fees := 0,
              costs_to_sell := c, years_to_hold := 0, elapsed := 0\<rparr>))) = 1
   \<and> rental_net_worth (snd (fst (projection (defaults\<lparr>interest_rate := 0, selling_fees := 0,
              costs_to_sell := c, years_to_hold := 0, elapsed := 0\<rparr>)) ! 0)) = 75000
   \<and> invested_value (snd (fst (projection (defaults\<lparr>interest_rate := 0, selling_fees := 0,
              costs_to_sell := c, years_to_hold := 0, elapsed := 0\<rparr>)) ! 0)) = 80000 - c"
  by (simp add: projection_def defaults_def year_iteration_def py_fpow_def py_pow_def
      calculate_remaining_balance_def py_div_def monthly_rate_def total_loan_months_def
      monthly_ownership_cost_def annual_depreciation_def Let_def)

theorem recommendation_strict_witness:
  "(let v = snd (fst (projection (defaults\<lparr>interest_rate := 0, selling_fees := 0,
                    costs_to_sell := 5000, years_to_hold := 0, elapsed := 0\<rparr>)) ! 0)
    in rental_net_worth v = 75000 \<and> invested_value v = 75000 \<and> better v = ''SELL'')
   \<and> (let v = snd (fst (projection (defaults\<lparr>interest_rate := 0, selling_fees := 0,
                    costs_to_sell := 6000, years_to_hold := 0, elapsed := 0\<rparr>)) ! 0)
    in rental_net_worth v = 75000 \<and> invested_value v = 74000 \<and> better v = ''RENT'')"
proof -
  let ?tie = "defaults\<lparr>interest_rate := 0, selling_fees := 0,
                    costs_to_sell := 5000, years_to_hold := 0, elapsed := 0\<rparr>"
  let ?dear = "defaults\<lparr>interest_rate := 0, selling_fees := 0,
                    costs_to_sell := 6000, years_to_hold := 0, elapsed := 0\<rparr>"
  note t = scenario_year_zero [of 5000]
  note d = scenario_year_zero [of 6000]
  from t have "0 < length (fst (projection ?tie))" by simp
  from recommendation_strict [OF this] t
  have "better (snd (fst (projection ?tie) ! 0)) = ''SELL''" by simp
  moreover
  from d have "0 < length (fst (projection ?dear))" by simp
  from recommendation_strict [OF this] d
  have "better (snd (fst (projection ?dear) ! 0)) = ''RENT''" by simp
  ultimately show ?thesis
    using t d by (simp add: Let_def)
qed

end
